theory Spec2Isabelle
  imports Main
begin

section \<open>Data model of \<open>server/src/schemas/resolvers.ts\<close>\<close>

text \<open>
  The resolver layer works on one collection of user documents with embedded book
  subdocuments. The store, the password hasher and the token signer are imported by
  the resolvers (\<open>../models/User.js\<close>, \<open>../models/Book.js\<close>, \<open>../utils/auth.js\<close>);
  their behaviour is written down here from the specification, and everything that
  the specification leaves open about them is a parameter (\<open>collaborators\<close>).
\<close>

text \<open>A store-assigned document identifier (\<open>_id\<close>).\<close>

type_synonym object_id = nat

text \<open>\<open>interface BookInput\<close>; an embedded book document has the same fields.\<close>

record BookInput =
  authors :: "string list"
  description :: string
  bookId :: string
  image :: string
  link :: string
  title :: string

type_synonym BookDocument = BookInput

text \<open>The \<open>input\<close> object of \<open>interface CreateUserArgs\<close>.\<close>

record CreateUserInput =
  username :: string
  email :: string
  password :: string
  savedBooks :: "BookInput list"

text \<open>
  What the store persists for a user: the created fields and the identifier. There is
  no \<open>bookCount\<close> field in a stored document.
\<close>

record UserDocument = CreateUserInput +
  doc_id :: object_id

text \<open>
  \<open>interface User\<close>: what a resolver hands back. It is the document together with the
  derived \<open>bookCount\<close>; the interface's string \<open>id\<close> is the rendering of \<open>_id\<close> and is
  read off \<open>doc_id\<close>.
\<close>

record User = UserDocument +
  bookCount :: nat

text \<open>The result \<open>{ token, user }\<close> of \<open>createUser\<close> and \<open>loginUser\<close>.\<close>

record Auth =
  token :: string
  auth_user :: User

text \<open>
  The third argument of \<open>signToken\<close>: \<open>createUser\<close> passes \<open>user._id\<close>, \<open>loginUser\<close>
  passes \<open>user.id\<close>.
\<close>

datatype id_value = ObjectId object_id | IdString object_id

text \<open>
  \<open>context.user\<close> has type \<open>any\<close>. The values it can hold: nothing, \<open>null\<close>, a
  primitive, or an object, of which only the fields \<open>_id\<close> (first) and \<open>id\<close> (second) are
  kept, each possibly missing.
\<close>

datatype context_user =
    JUndefined
  | JNull
  | JBoolean bool
  | JNumber int
  | JString string
  | JObject "object_id option" "object_id option"

record Context =
  ctx_user :: context_user

text \<open>What a resolver can throw.\<close>

datatype thrown =
    New_AuthenticationError string
      \<comment> \<open>\<open>throw new AuthenticationError(message)\<close>: an instance carrying its message\<close>
  | AuthenticationError_class
      \<comment> \<open>\<open>throw AuthenticationError\<close>: the imported class itself, not an instance\<close>
  | StoreError
      \<comment> \<open>a failure raised inside the store, passed on unchanged\<close>

text \<open>The filters, updates and options the resolvers hand to the store.\<close>

datatype filter =
    ByUsername string
  | ByEmail string
  | By_id "object_id option"

datatype update =
    AddToSet BookInput
  | Pull string

record options =
  new :: bool
  runValidators :: bool

text \<open>Every call a resolver makes to a collaborator, in the order made.\<close>

datatype call =
    FindOne filter
  | Create CreateUserInput
  | FindOneAndUpdate filter update options
  | IsCorrectPassword object_id string
  | SignToken string string id_value

record state =
  users :: "UserDocument list"
  calls :: "call list"

text \<open>
  The parts of the collaborators that the specification names only by interface:
  the signer, the hash comparison, the hashing done on creation, and the store's own
  validation of a new user and of an embedded book.
\<close>

record collaborators =
  signToken :: "string \<Rightarrow> string \<Rightarrow> id_value \<Rightarrow> string"
  isCorrectPassword :: "User \<Rightarrow> string \<Rightarrow> bool"
  hashPassword :: "string \<Rightarrow> string"
  createValid :: "UserDocument list \<Rightarrow> CreateUserInput \<Rightarrow> bool"
  bookValid :: "BookInput \<Rightarrow> bool"

section \<open>JavaScript truthiness and property access\<close>

text \<open>\<open>if (context.user)\<close>: every object is truthy; \<open>undefined\<close>, \<open>null\<close>, \<open>false\<close>, \<open>0\<close>
  and the empty string are not.\<close>

fun truthy :: "context_user \<Rightarrow> bool" where
  "truthy JUndefined = False"
| "truthy JNull = False"
| "truthy (JBoolean b) = b"
| "truthy (JNumber n) = (n \<noteq> 0)"
| "truthy (JString s) = (s \<noteq> [])"
| "truthy (JObject i j) = True"

text \<open>\<open>context.user._id\<close>, read only behind the truthiness test: a primitive has no
  such property, an object has it or not.\<close>

fun get_id :: "context_user \<Rightarrow> object_id option" where
  "get_id (JObject i j) = i"
| "get_id u = None"

text \<open>\<open>err instanceof AuthenticationError\<close>.\<close>

fun instanceof_AuthenticationError :: "thrown \<Rightarrow> bool" where
  "instanceof_AuthenticationError (New_AuthenticationError m) = True"
| "instanceof_AuthenticationError AuthenticationError_class = False"
| "instanceof_AuthenticationError StoreError = False"

section \<open>The store\<close>

text \<open>
  Modelled from the spec: the derived field \<open>bookCount\<close> of the user model
  (\<open>models/User.js\<close> is not among the sources). It is the count of \<open>savedBooks\<close>,
  computed when the document is read.
\<close>

definition to_User :: "UserDocument \<Rightarrow> User" where
  "to_User d =
     \<lparr> username = username d, email = email d, password = password d,
       savedBooks = savedBooks d, doc_id = doc_id d,
       bookCount = length (savedBooks d) \<rparr>"

text \<open>
  Modelled from the spec: the store's filter-by-field lookup. A filter names one field
  and the value it must equal; a stored document always has an \<open>_id\<close>, so a filter
  whose \<open>_id\<close> is missing selects nothing.
\<close>

fun matches :: "filter \<Rightarrow> UserDocument \<Rightarrow> bool" where
  "matches (ByUsername n) d = (username d = n)"
| "matches (ByEmail e) d = (email d = e)"
| "matches (By_id None) d = False"
| "matches (By_id (Some i)) d = (doc_id d = i)"

definition log_call :: "call \<Rightarrow> state \<Rightarrow> state" where
  "log_call c s = s\<lparr> calls := calls s @ [c] \<rparr>"

text \<open>Modelled from the spec: \<open>User.findOne(filter)\<close>, the first matching document or
  \<open>null\<close>.\<close>

definition findOne :: "filter \<Rightarrow> state \<Rightarrow> User option \<times> state" where
  "findOne f s =
     (map_option to_User (List.find (matches f) (users s)), log_call (FindOne f) s)"

text \<open>Modelled from the spec: identifiers are assigned by the store, once, and are
  unique.\<close>

definition fresh_id :: "UserDocument list \<Rightarrow> object_id" where
  "fresh_id ds = Suc (fold max (map doc_id ds) 0)"

text \<open>
  Modelled from the spec: \<open>User.create({ ...input })\<close>. One document is added with the
  given fields, the password hashed by the store; a store-level rejection (uniqueness,
  validation) fails without adding anything.
\<close>

definition create ::
  "collaborators \<Rightarrow> CreateUserInput \<Rightarrow> state \<Rightarrow> (thrown + User) \<times> state" where
  "create K inp s =
     (let s1 = log_call (Create inp) s in
      if \<not> createValid K (users s) inp then (Inl StoreError, s1)
      else
        let d = \<lparr> username = username inp, email = email inp,
                  password = hashPassword K (password inp),
                  savedBooks = savedBooks inp, doc_id = fresh_id (users s) \<rparr>
        in (Inr (to_User d), s1\<lparr> users := users s @ [d] \<rparr>))"

text \<open>
  Modelled from the spec: the two array operators. \<open>$addToSet\<close> appends the book only if
  no entry equals it in all fields; \<open>$pull\<close> removes every entry whose \<open>bookId\<close> equals
  the given one.
\<close>

fun update_array :: "update \<Rightarrow> BookDocument list \<Rightarrow> BookDocument list" where
  "update_array (AddToSet b) bs = (if b \<in> set bs then bs else bs @ [b])"
| "update_array (Pull bid) bs = filter (\<lambda>b. bookId b \<noteq> bid) bs"

text \<open>Both updates name the array \<open>savedBooks\<close> and touch no other field.\<close>

definition apply_update :: "update \<Rightarrow> UserDocument \<Rightarrow> UserDocument" where
  "apply_update upd d = d\<lparr> savedBooks := update_array upd (savedBooks d) \<rparr>"

text \<open>What \<open>runValidators\<close> checks: the embedded book of an \<open>$addToSet\<close>.\<close>

fun update_valid :: "collaborators \<Rightarrow> update \<Rightarrow> bool" where
  "update_valid K (AddToSet b) = bookValid K b"
| "update_valid K (Pull bid) = True"

text \<open>Replace the first element that satisfies \<open>P\<close>; the others stay.\<close>

fun update_first :: "('a \<Rightarrow> bool) \<Rightarrow> ('a \<Rightarrow> 'a) \<Rightarrow> 'a list \<Rightarrow> 'a list" where
  "update_first P g [] = []"
| "update_first P g (x # xs) = (if P x then g x # xs else x # update_first P g xs)"

text \<open>
  Modelled from the spec: \<open>User.findOneAndUpdate(filter, update, options)\<close>, atomic on
  the one document it targets. With \<open>runValidators\<close> an invalid update fails before
  anything is written; without a matching document the result is \<open>null\<close> and nothing
  is written (no upsert); with \<open>new\<close> the document is returned as it is after the
  update.
\<close>

definition findOneAndUpdate ::
  "collaborators \<Rightarrow> filter \<Rightarrow> update \<Rightarrow> options \<Rightarrow> state
    \<Rightarrow> (thrown + User option) \<times> state" where
  "findOneAndUpdate K f upd opts s =
     (let s1 = log_call (FindOneAndUpdate f upd opts) s in
      if runValidators opts \<and> \<not> update_valid K upd then (Inl StoreError, s1)
      else
        (case List.find (matches f) (users s) of
           None \<Rightarrow> (Inr None, s1)
         | Some d \<Rightarrow>
             (Inr (Some (to_User (if new opts then apply_update upd d else d))),
              s1\<lparr> users := update_first (matches f) (apply_update upd) (users s) \<rparr>)))"

section \<open>The resolvers\<close>

subsection \<open>Query\<close>

definition user :: "string \<Rightarrow> state \<Rightarrow> (thrown + User option) \<times> state" where
  "user usernm s = (case findOne (ByUsername usernm) s of (r, s1) \<Rightarrow> (Inr r, s1))"

definition me :: "Context \<Rightarrow> state \<Rightarrow> (thrown + User option) \<times> state" where
  "me ctx s =
     (if truthy (ctx_user ctx)
      then (case findOne (By_id (get_id (ctx_user ctx))) s of (r, s1) \<Rightarrow> (Inr r, s1))
      else (Inl (New_AuthenticationError ''Not Authenticated''), s))"

subsection \<open>Mutation\<close>

definition createUser ::
  "collaborators \<Rightarrow> CreateUserInput \<Rightarrow> state \<Rightarrow> (thrown + Auth) \<times> state" where
  "createUser K inp s =
     (case create K inp s of
        (Inl e, s1) \<Rightarrow> (Inl e, s1)
      | (Inr u, s1) \<Rightarrow>
          (let tok = signToken K (username u) (email u) (ObjectId (doc_id u))
           in (Inr \<lparr> token = tok, auth_user = u \<rparr>,
               log_call (SignToken (username u) (email u) (ObjectId (doc_id u))) s1)))"

definition loginUser ::
  "collaborators \<Rightarrow> string \<Rightarrow> string \<Rightarrow> state \<Rightarrow> (thrown + Auth) \<times> state" where
  "loginUser K em pw s =
     (case findOne (ByEmail em) s of
        (None, s1) \<Rightarrow> (Inl AuthenticationError_class, s1)
      | (Some u, s1) \<Rightarrow>
          (let correctPw = isCorrectPassword K u pw;
               s2 = log_call (IsCorrectPassword (doc_id u) pw) s1
           in if \<not> correctPw then (Inl (New_AuthenticationError ''Not authenticated''), s2)
              else
                (let tok = signToken K (username u) (email u) (IdString (doc_id u))
                 in (Inr \<lparr> token = tok, auth_user = u \<rparr>,
                     log_call (SignToken (username u) (email u) (IdString (doc_id u))) s2))))"

definition saveBook ::
  "collaborators \<Rightarrow> BookInput \<Rightarrow> Context \<Rightarrow> state \<Rightarrow> (thrown + User option) \<times> state" where
  "saveBook K inp ctx s =
     (if truthy (ctx_user ctx)
      then findOneAndUpdate K (By_id (get_id (ctx_user ctx))) (AddToSet inp)
             \<lparr> new = True, runValidators = True \<rparr> s
      else (Inl (New_AuthenticationError ''Could not find user''), s))"

definition deleteBook ::
  "collaborators \<Rightarrow> string \<Rightarrow> Context \<Rightarrow> state \<Rightarrow> (thrown + User option) \<times> state" where
  "deleteBook K bid ctx s =
     (if truthy (ctx_user ctx)
      then findOneAndUpdate K (By_id (get_id (ctx_user ctx))) (Pull bid)
             \<lparr> new = True, runValidators = False \<rparr> s
      else (Inl (New_AuthenticationError ''Could not find user''), s))"

section \<open>Observations used in the statements\<close>

text \<open>\<open>instanceof AuthenticationError\<close> on what a resolver call ended with.\<close>

fun instanceof_AuthenticationError_result :: "thrown + 'a \<Rightarrow> bool" where
  "instanceof_AuthenticationError_result (Inl e) = instanceof_AuthenticationError e"
| "instanceof_AuthenticationError_result (Inr r) = False"

text \<open>The \<open>savedBooks\<close> array that the store holds for the user a context points to, if
  there is such a user.\<close>

definition savedBooks_of :: "Context \<Rightarrow> state \<Rightarrow> BookDocument list option" where
  "savedBooks_of ctx s =
     map_option savedBooks
       (List.find (matches (By_id (get_id (ctx_user ctx)))) (users s))"

text \<open>A returned user is the reading of a document that the store holds in state \<open>s\<close>,
  and its \<open>bookCount\<close> is the length of that document's \<open>savedBooks\<close>.\<close>

definition read_at :: "User \<Rightarrow> state \<Rightarrow> bool" where
  "read_at u s = (\<exists>d \<in> set (users s). u = to_User d \<and> bookCount u = length (savedBooks d))"

text \<open>
  The frame of an update aimed at \<open>target\<close>: the collection keeps its documents in
  place, every document keeps its identifier, name, email and password, a document
  with another identifier is untouched, and at most one document differs at all.
\<close>

definition only_savedBooks_of ::
  "object_id option \<Rightarrow> UserDocument list \<Rightarrow> UserDocument list \<Rightarrow> bool" where
  "only_savedBooks_of target before after =
     (list_all2
        (\<lambda>d d'. doc_id d' = doc_id d \<and> username d' = username d \<and> email d' = email d
                \<and> password d' = password d
                \<and> (Some (doc_id d) \<noteq> target \<longrightarrow> d' = d))
        before after
      \<and> length (filter (\<lambda>(d, d'). d \<noteq> d') (zip before after)) \<le> 1)"

section \<open>Sample collaborators and a sample store\<close>

text \<open>
  One concrete choice of the collaborators, for evaluating the resolvers on concrete
  inputs: the signer joins its arguments (the identifier in unary), the hasher prefixes
  a marker, every user with a non-empty name is accepted, and a book is valid when it
  has a \<open>bookId\<close>.
\<close>

definition sample_collaborators :: collaborators where
  "sample_collaborators =
     \<lparr> signToken = (\<lambda>u e i. u @ ''|'' @ e @ ''|''
                        @ (case i of ObjectId n \<Rightarrow> replicate n (CHR ''o'')
                                   | IdString n \<Rightarrow> replicate n (CHR ''s''))),
       isCorrectPassword = (\<lambda>u p. password u = ''#'' @ p),
       hashPassword = (\<lambda>p. ''#'' @ p),
       createValid = (\<lambda>ds i. username i \<noteq> []),
       bookValid = (\<lambda>b. bookId b \<noteq> []) \<rparr>"

definition dune :: BookInput where
  "dune = \<lparr> authors = [''Frank Herbert''], description = ''Arrakis'', bookId = ''b1'',
            image = [], link = [], title = ''Dune'' \<rparr>"

definition dune_retitled :: BookInput where
  "dune_retitled = \<lparr> authors = [''Frank Herbert''], description = ''Arrakis'',
                     bookId = ''b1'', image = [], link = [], title = ''Dune (2nd ed.)'' \<rparr>"

definition emma :: BookInput where
  "emma = \<lparr> authors = [''Jane Austen''], description = ''Highbury'', bookId = ''b2'',
            image = [], link = [], title = ''Emma'' \<rparr>"

definition alice :: UserDocument where
  "alice = \<lparr> username = ''alice'', email = ''a@x.com'', password = ''#p'',
             savedBooks = [dune], doc_id = 1 \<rparr>"

definition bob :: UserDocument where
  "bob = \<lparr> username = ''bob'', email = ''b@x.com'', password = ''#q'',
           savedBooks = [emma], doc_id = 2 \<rparr>"

definition sample_state :: state where
  "sample_state = \<lparr> users = [alice, bob], calls = [] \<rparr>"

definition alice_context :: Context where
  "alice_context = \<lparr> ctx_user = JObject (Some 1) (Some 1) \<rparr>"

definition alice_library :: UserDocument where
  "alice_library = \<lparr> username = ''alice'', email = ''a@x.com'', password = ''#p'',
                     savedBooks = [dune, emma, dune_retitled], doc_id = 1 \<rparr>"

definition library_state :: state where
  "library_state = \<lparr> users = [alice_library, bob], calls = [] \<rparr>"

definition carol_input :: CreateUserInput where
  "carol_input = \<lparr> username = ''carol'', email = ''c@x.com'', password = ''r'',
                   savedBooks = [] \<rparr>"

text \<open>An input whose \<open>savedBooks\<close> repeats a book, and the context of the user it
  creates in the sample store.\<close>

definition dave_input :: CreateUserInput where
  "dave_input = \<lparr> username = ''dave'', email = ''d@x.com'', password = ''s'',
                  savedBooks = [dune, dune] \<rparr>"

definition dave_context :: Context where
  "dave_context = \<lparr> ctx_user = JObject (Some 3) (Some 3) \<rparr>"

section \<open>Facts about the store\<close>

lemma find_update_first:
  assumes "\<And>x. P (g x) = P x"
  shows "List.find P (update_first P g xs) = map_option g (List.find P xs)"
  using assms by (induction xs) auto

lemma length_update_first: "length (update_first P g xs) = length xs"
  by (induction xs) auto

lemma update_first_no_match: "List.find P xs = None \<Longrightarrow> update_first P g xs = xs"
  by (induction xs) (auto split: if_splits)

lemma update_first_fixed:
  "List.find P xs = Some d \<Longrightarrow> g d = d \<Longrightarrow> update_first P g xs = xs"
  by (induction xs) (auto split: if_splits)

lemma update_first_in_set:
  "List.find P xs = Some d \<Longrightarrow> g d \<in> set (update_first P g xs)"
  by (induction xs) (auto split: if_splits)

lemma find_Some_in_set: "List.find P xs = Some d \<Longrightarrow> d \<in> set xs"
  by (induction xs) (auto split: if_splits)

lemma update_first_all2:
  assumes "\<And>x. P x \<Longrightarrow> R x (g x)" and "\<And>x. R x x"
  shows "list_all2 R xs (update_first P g xs)"
  using assms by (induction xs) (auto simp: list_all2_refl)

lemma update_first_changes_at_most_one:
  "length (filter (\<lambda>(x, y). x \<noteq> y) (zip xs (update_first P g xs))) \<le> 1"
  by (induction xs) (auto simp: zip_same_conv_map filter_map o_def)

lemma matches_savedBooks_update: "matches f (d\<lparr>savedBooks := bs\<rparr>) = matches f d"
  by (cases "(f, d)" rule: matches.cases) auto

lemma matches_apply_update: "matches f (apply_update upd d) = matches f d"
  by (simp add: apply_update_def matches_savedBooks_update)

lemma find_after_update:
  "List.find (matches f) (update_first (matches f) (apply_update upd) ds)
     = map_option (apply_update upd) (List.find (matches f) ds)"
  by (rule find_update_first) (rule matches_apply_update)

lemma users_log_call: "users (log_call c s) = users s"
  by (simp add: log_call_def)

lemma savedBooks_apply_update:
  "savedBooks (apply_update upd d) = update_array upd (savedBooks d)"
  by (simp add: apply_update_def)

lemma findOneAndUpdate_found:
  assumes "List.find (matches f) (users s) = Some d"
    and "runValidators opts \<longrightarrow> update_valid K upd"
  shows "findOneAndUpdate K f upd opts s
           = (Inr (Some (to_User (if new opts then apply_update upd d else d))),
              \<lparr> users = update_first (matches f) (apply_update upd) (users s),
                calls = calls s @ [FindOneAndUpdate f upd opts] \<rparr>)"
  using assms by (auto simp: findOneAndUpdate_def Let_def log_call_def)

lemma findOneAndUpdate_not_found:
  assumes "List.find (matches f) (users s) = None"
    and "runValidators opts \<longrightarrow> update_valid K upd"
  shows "findOneAndUpdate K f upd opts s
           = (Inr None, s\<lparr> calls := calls s @ [FindOneAndUpdate f upd opts] \<rparr>)"
  using assms by (auto simp: findOneAndUpdate_def Let_def log_call_def)

lemma users_findOneAndUpdate:
  "users (snd (findOneAndUpdate K f upd opts s))
     = (if runValidators opts \<and> \<not> update_valid K upd then users s
        else update_first (matches f) (apply_update upd) (users s))"
  by (auto simp: findOneAndUpdate_def Let_def users_log_call update_first_no_match
           split: option.splits)

lemma savedBooks_of_findOneAndUpdate:
  assumes "savedBooks_of ctx s = Some bs"
    and "runValidators opts \<longrightarrow> update_valid K upd"
  shows "savedBooks_of ctx
           (snd (findOneAndUpdate K (By_id (get_id (ctx_user ctx))) upd opts s))
         = Some (update_array upd bs)"
proof -
  from assms(1) obtain d
    where d: "List.find (matches (By_id (get_id (ctx_user ctx)))) (users s) = Some d"
      and bs: "bs = savedBooks d"
    by (auto simp: savedBooks_of_def)
  show ?thesis
    by (simp add: findOneAndUpdate_found [OF d assms(2)] savedBooks_of_def
          find_after_update d bs savedBooks_apply_update)
qed

lemma user_unfold:
  "user n s = (Inr (fst (findOne (ByUsername n) s)), snd (findOne (ByUsername n) s))"
  by (simp add: user_def case_prod_beta)

lemma me_authenticated:
  "truthy (ctx_user ctx) \<Longrightarrow>
   me ctx s = (Inr (fst (findOne (By_id (get_id (ctx_user ctx))) s)),
                   snd (findOne (By_id (get_id (ctx_user ctx))) s))"
  by (simp add: me_def case_prod_beta)

lemma saveBook_authenticated:
  "truthy (ctx_user ctx) \<Longrightarrow>
   saveBook K b ctx s
     = findOneAndUpdate K (By_id (get_id (ctx_user ctx))) (AddToSet b)
         \<lparr> new = True, runValidators = True \<rparr> s"
  by (simp add: saveBook_def)

lemma deleteBook_authenticated:
  "truthy (ctx_user ctx) \<Longrightarrow>
   deleteBook K bid ctx s
     = findOneAndUpdate K (By_id (get_id (ctx_user ctx))) (Pull bid)
         \<lparr> new = True, runValidators = False \<rparr> s"
  by (simp add: deleteBook_def)

lemma matches_By_id: "matches (By_id (Some k)) = (\<lambda>d. doc_id d = k)"
  by (rule ext) simp

lemma users_createUser:
  assumes "createValid K (users s) inp"
  shows "users (snd (createUser K inp s))
           = users s @ [\<lparr> username = username inp, email = email inp,
                           password = hashPassword K (password inp),
                           savedBooks = savedBooks inp, doc_id = fresh_id (users s) \<rparr>]"
  using assms by (simp add: createUser_def create_def Let_def log_call_def)

section \<open>The sample store, evaluated\<close>

lemma truthy_alice: "truthy (ctx_user alice_context)"
  by (simp add: alice_context_def)

lemma get_id_alice: "get_id (ctx_user alice_context) = Some 1"
  by (simp add: alice_context_def)

lemma book_ids: "bookId dune = ''b1''" "bookId dune_retitled = ''b1''" "bookId emma = ''b2''"
  by (simp_all add: dune_def dune_retitled_def emma_def)

lemma books_differ: "dune_retitled \<noteq> dune" "emma \<noteq> dune" "emma \<noteq> dune_retitled"
  by (simp_all add: dune_def dune_retitled_def emma_def)

lemma books_valid:
  "bookValid sample_collaborators dune_retitled" "bookValid sample_collaborators emma"
  by (simp_all add: sample_collaborators_def book_ids)

lemma sample_ids: "doc_id alice = 1" "doc_id alice_library = 1" "doc_id bob = 2"
  by (simp_all add: alice_def alice_library_def bob_def)

lemma find_alice: "List.find (matches (By_id (Some 1))) (users sample_state) = Some alice"
  by (simp add: sample_state_def alice_def)

lemma find_alice_library:
  "List.find (matches (By_id (Some 1))) (users library_state) = Some alice_library"
  by (simp add: library_state_def alice_library_def)

lemma alice_books: "savedBooks_of alice_context sample_state = Some [dune]"
  unfolding savedBooks_of_def get_id_alice find_alice by (simp add: alice_def)

lemma library_books:
  "savedBooks_of alice_context library_state = Some [dune, emma, dune_retitled]"
  unfolding savedBooks_of_def get_id_alice find_alice_library by (simp add: alice_library_def)

lemma fresh_id_sample: "fresh_id (users sample_state) = 3"
  by (simp add: fresh_id_def sample_state_def alice_def bob_def)

lemma save_emma:
  "saveBook sample_collaborators emma alice_context sample_state
     = (Inr (Some (to_User (alice\<lparr> savedBooks := [dune, emma] \<rparr>))),
        \<lparr> users = [alice\<lparr> savedBooks := [dune, emma] \<rparr>, bob],
          calls = [FindOneAndUpdate (By_id (Some 1)) (AddToSet emma)
                     \<lparr> new = True, runValidators = True \<rparr>] \<rparr>)"
proof -
  have ok: "runValidators \<lparr> new = True, runValidators = True \<rparr>
              \<longrightarrow> update_valid sample_collaborators (AddToSet emma)"
    by (simp add: books_valid)
  have upd: "apply_update (AddToSet emma) alice = alice\<lparr> savedBooks := [dune, emma] \<rparr>"
    by (simp add: apply_update_def alice_def books_differ)
  have us: "update_first (matches (By_id (Some 1))) (apply_update (AddToSet emma))
              (users sample_state) = [alice\<lparr> savedBooks := [dune, emma] \<rparr>, bob]"
    by (simp add: sample_state_def sample_ids upd)
  show ?thesis
    unfolding saveBook_authenticated [OF truthy_alice] get_id_alice
      findOneAndUpdate_found [OF find_alice ok] us upd
    by (simp add: sample_state_def)
qed

lemma delete_b1:
  "deleteBook sample_collaborators ''b1'' alice_context library_state
     = (Inr (Some (to_User (alice_library\<lparr> savedBooks := [emma] \<rparr>))),
        \<lparr> users = [alice_library\<lparr> savedBooks := [emma] \<rparr>, bob],
          calls = [FindOneAndUpdate (By_id (Some 1)) (Pull ''b1'')
                     \<lparr> new = True, runValidators = False \<rparr>] \<rparr>)"
proof -
  have ok: "runValidators \<lparr> new = True, runValidators = False \<rparr>
              \<longrightarrow> update_valid sample_collaborators (Pull ''b1'')"
    by simp
  have upd: "apply_update (Pull ''b1'') alice_library = alice_library\<lparr> savedBooks := [emma] \<rparr>"
    by (simp add: apply_update_def alice_library_def book_ids)
  have us: "update_first (matches (By_id (Some 1))) (apply_update (Pull ''b1''))
              (users library_state) = [alice_library\<lparr> savedBooks := [emma] \<rparr>, bob]"
    by (simp add: library_state_def sample_ids upd)
  show ?thesis
    unfolding deleteBook_authenticated [OF truthy_alice] get_id_alice
      findOneAndUpdate_found [OF find_alice_library ok] us upd
    by (simp add: library_state_def)
qed

lemma find_bob: "List.find (\<lambda>d. doc_id d = 2) (users sample_state) = Some bob"
  by (simp add: sample_state_def sample_ids)

lemma dave_books:
  "savedBooks_of dave_context (snd (createUser sample_collaborators dave_input sample_state))
     = Some [dune, dune]"
proof -
  have valid: "createValid sample_collaborators (users sample_state) dave_input"
    by (simp add: sample_collaborators_def dave_input_def)
  show ?thesis
    unfolding savedBooks_of_def users_createUser [OF valid] fresh_id_sample
    by (simp add: dave_context_def sample_state_def sample_ids dave_input_def)
qed

lemma pull_b2:
  "update_first (\<lambda>d. doc_id d = 2) (apply_update (Pull ''b2'')) (users sample_state)
     = [alice, bob\<lparr> savedBooks := [] \<rparr>]"
  by (simp add: sample_state_def sample_ids apply_update_def bob_def book_ids)

section \<open>Unauthenticated calls\<close>

text \<open>
  C4. Whenever \<open>context.user\<close> is absent or falsy, \<open>me\<close> fails with
  \<open>AuthenticationError("Not Authenticated")\<close> and the state is the one it started
  from: no document changed and no call to the store (or to any collaborator) was made.
\<close>

theorem me_unauthenticated:
  assumes "\<not> truthy (ctx_user ctx)"
  shows "me ctx s = (Inl (New_AuthenticationError ''Not Authenticated''), s)"
  using assms by (simp add: me_def)

theorem me_unauthenticated_witness:
  "\<not> truthy (ctx_user \<lparr> ctx_user = JNull \<rparr>)
   \<and> me \<lparr> ctx_user = JNull \<rparr> sample_state
       = (Inl (New_AuthenticationError ''Not Authenticated''), sample_state)
   \<and> calls (snd (me \<lparr> ctx_user = JNull \<rparr> sample_state)) = []"
  using me_unauthenticated [of "\<lparr> ctx_user = JNull \<rparr>" sample_state]
  by (simp add: sample_state_def)

text \<open>
  C3. Whenever \<open>context.user\<close> is absent or falsy, \<open>saveBook\<close> and \<open>deleteBook\<close> fail
  with \<open>AuthenticationError("Could not find user")\<close> and hand back the state they
  started from: no document is written and the store is not called.
\<close>

theorem saveBook_deleteBook_unauthenticated:
  assumes "\<not> truthy (ctx_user ctx)"
  shows "saveBook K inp ctx s = (Inl (New_AuthenticationError ''Could not find user''), s)
       \<and> deleteBook K bid ctx s
           = (Inl (New_AuthenticationError ''Could not find user''), s)"
  using assms by (simp add: saveBook_def deleteBook_def)

theorem saveBook_deleteBook_unauthenticated_witness:
  "\<not> truthy (ctx_user \<lparr> ctx_user = JUndefined \<rparr>)
   \<and> saveBook sample_collaborators emma \<lparr> ctx_user = JUndefined \<rparr> sample_state
       = (Inl (New_AuthenticationError ''Could not find user''), sample_state)
   \<and> deleteBook sample_collaborators ''b1'' \<lparr> ctx_user = JUndefined \<rparr> sample_state
       = (Inl (New_AuthenticationError ''Could not find user''), sample_state)"
  using saveBook_deleteBook_unauthenticated
          [of "\<lparr> ctx_user = JUndefined \<rparr>" sample_collaborators emma sample_state "''b1''"]
  by simp

section \<open>Logging in\<close>

text \<open>
  C2. When no stored user has the given email, \<open>loginUser\<close> does fail and returns no
  token and no user, but what it throws is the class \<open>AuthenticationError\<close> itself
  (\<open>throw AuthenticationError\<close>), which is not an instance of \<open>AuthenticationError\<close>. The
  only call made is the lookup, and no document changes.
\<close>

theorem loginUser_unknown_email:
  assumes "List.find (matches (ByEmail em)) (users s) = None"
  shows "loginUser K em pw s
           = (Inl AuthenticationError_class, s\<lparr> calls := calls s @ [FindOne (ByEmail em)] \<rparr>)
       \<and> \<not> instanceof_AuthenticationError AuthenticationError_class"
  using assms by (simp add: loginUser_def findOne_def log_call_def)

theorem loginUser_unknown_email_evaluated:
  "List.find (matches (ByEmail ''nobody@x.com'')) (users sample_state) = None
   \<and> fst (loginUser sample_collaborators ''nobody@x.com'' ''p'' sample_state)
       = Inl AuthenticationError_class
   \<and> \<not> instanceof_AuthenticationError AuthenticationError_class"
proof -
  have none: "List.find (matches (ByEmail ''nobody@x.com'')) (users sample_state) = None"
    by (simp add: sample_state_def alice_def bob_def)
  from loginUser_unknown_email [OF none, of sample_collaborators "''p''"] none
  show ?thesis by simp
qed

text \<open>
  C6. When the user found for the email fails the password comparison, \<open>loginUser\<close>
  fails with \<open>AuthenticationError("Not authenticated")\<close>. The calls made are the lookup
  and the comparison, in this order: the signer is not called, so no token is issued,
  and no document changes.
\<close>

theorem loginUser_wrong_password:
  assumes "List.find (matches (ByEmail em)) (users s) = Some d"
    and "\<not> isCorrectPassword K (to_User d) pw"
  shows "loginUser K em pw s
           = (Inl (New_AuthenticationError ''Not authenticated''),
              s\<lparr> calls := calls s @ [FindOne (ByEmail em), IsCorrectPassword (doc_id d) pw] \<rparr>)
       \<and> users (snd (loginUser K em pw s)) = users s"
  using assms by (simp add: loginUser_def findOne_def log_call_def to_User_def)

theorem loginUser_wrong_password_witness:
  "List.find (matches (ByEmail ''a@x.com'')) (users sample_state) = Some alice
   \<and> \<not> isCorrectPassword sample_collaborators (to_User alice) ''zz''
   \<and> loginUser sample_collaborators ''a@x.com'' ''zz'' sample_state
       = (Inl (New_AuthenticationError ''Not authenticated''),
          sample_state\<lparr> calls := [FindOne (ByEmail ''a@x.com''), IsCorrectPassword 1 ''zz''] \<rparr>)"
proof -
  have found: "List.find (matches (ByEmail ''a@x.com'')) (users sample_state) = Some alice"
    by (simp add: sample_state_def alice_def)
  have wrong: "\<not> isCorrectPassword sample_collaborators (to_User alice) ''zz''"
    by (simp add: sample_collaborators_def to_User_def alice_def)
  from loginUser_wrong_password [OF found wrong] found wrong
  show ?thesis by (simp add: sample_state_def alice_def)
qed

section \<open>Saving a book\<close>

lemma count_list_member: "b \<in> set bs \<Longrightarrow> Suc 0 \<le> count_list bs b"
  by (induction bs) auto

lemma count_AddToSet:
  "count_list (update_array (AddToSet b) bs) b = max 1 (count_list bs b)"
  by (auto simp: max_def count_list_0_iff dest: count_list_member)

lemma apply_update_AddToSet_twice:
  "apply_update (AddToSet b) (apply_update (AddToSet b) d) = apply_update (AddToSet b) d"
  by (simp add: apply_update_def)

lemma saveBook_second_call_users:
  assumes auth: "truthy (ctx_user ctx)" and valid: "bookValid K b"
  shows "users (snd (saveBook K b ctx (snd (saveBook K b ctx s))))
           = users (snd (saveBook K b ctx s))"
proof -
  let ?f = "By_id (get_id (ctx_user ctx))"
  let ?g = "apply_update (AddToSet b)"
  let ?us = "update_first (matches ?f) ?g (users s)"
  have one: "users (snd (saveBook K b ctx s)) = ?us"
    using valid by (simp add: saveBook_authenticated [OF auth] users_findOneAndUpdate)
  have two: "users (snd (saveBook K b ctx (snd (saveBook K b ctx s))))
               = update_first (matches ?f) ?g ?us"
    using valid by (simp add: saveBook_authenticated [OF auth] users_findOneAndUpdate)
  have "update_first (matches ?f) ?g ?us = ?us"
  proof (cases "List.find (matches ?f) (users s)")
    case None
    then show ?thesis by (simp add: update_first_no_match)
  next
    case (Some d)
    then have "List.find (matches ?f) ?us = Some (?g d)"
      by (simp add: find_after_update)
    then show ?thesis
      by (rule update_first_fixed) (rule apply_update_AddToSet_twice)
  qed
  with one two show ?thesis by simp
qed

lemma two_members:
  assumes "x \<in> set xs" and "y \<in> set xs" and "x \<noteq> y"
  shows "2 \<le> length xs"
proof -
  have "card {x, y} \<le> card (set xs)"
    using assms by (intro card_mono) auto
  also have "\<dots> \<le> length xs"
    by (rule card_length)
  finally show ?thesis
    using assms(3) by simp
qed

text \<open>
  C1. \<open>saveBook\<close> removes duplicates by equality of the whole book, not by \<open>bookId\<close>.
  For an authenticated context whose user is stored, and a book the store accepts:
  the first call leaves the array as it was if the book is already among the entries
  and appends it otherwise; a second call with the same book changes no document, so
  after two calls the book occurs once if it occurred at most once before (in general
  as often as before, and at least once); an existing entry that shares the \<open>bookId\<close>
  but has another title stays, next to the new book, so that there are two entries
  with that \<open>bookId\<close>; and an array without repeated entries stays without them.
\<close>

theorem saveBook_full_field_dedup:
  assumes auth: "truthy (ctx_user ctx)"
    and valid: "bookValid K b"
    and stored: "savedBooks_of ctx s = Some bs"
  shows "let s1 = snd (saveBook K b ctx s);
             s2 = snd (saveBook K b ctx s1)
         in savedBooks_of ctx s1 = Some (if b \<in> set bs then bs else bs @ [b])
          \<and> users s2 = users s1
          \<and> (\<exists>bs2. savedBooks_of ctx s2 = Some bs2
                    \<and> count_list bs2 b = max 1 (count_list bs b))
          \<and> (count_list bs b \<le> 1 \<longrightarrow>
               (\<exists>bs2. savedBooks_of ctx s2 = Some bs2 \<and> count_list bs2 b = 1))
          \<and> (\<forall>e \<in> set bs. bookId e = bookId b \<and> title e \<noteq> title b \<longrightarrow>
               (\<exists>bs1. savedBooks_of ctx s1 = Some bs1 \<and> e \<in> set bs1 \<and> b \<in> set bs1
                      \<and> e \<noteq> b \<and> 2 \<le> length (filter (\<lambda>x. bookId x = bookId b) bs1)))
          \<and> (\<forall>e. bs = [e] \<and> bookId e = bookId b \<and> title e \<noteq> title b \<longrightarrow>
               savedBooks_of ctx s1 = Some [e, b])
          \<and> (distinct bs \<longrightarrow>
               (\<exists>bs1. savedBooks_of ctx s1 = Some bs1 \<and> distinct bs1))"
proof -
  let ?s1 = "snd (saveBook K b ctx s)"
  let ?s2 = "snd (saveBook K b ctx ?s1)"
  let ?bs1 = "update_array (AddToSet b) bs"
  have ok: "runValidators \<lparr> new = True, runValidators = True \<rparr>
              \<longrightarrow> update_valid K (AddToSet b)"
    using valid by simp
  have first: "savedBooks_of ctx ?s1 = Some ?bs1"
    unfolding saveBook_authenticated [OF auth]
    by (rule savedBooks_of_findOneAndUpdate [OF stored ok])
  have same: "users ?s2 = users ?s1"
    by (rule saveBook_second_call_users [OF auth valid])
  then have second: "savedBooks_of ctx ?s2 = Some ?bs1"
    using first by (simp add: savedBooks_of_def)
  have cnt: "count_list ?bs1 b = max 1 (count_list bs b)"
    by (rule count_AddToSet)
  have c1: "savedBooks_of ctx ?s1 = Some (if b \<in> set bs then bs else bs @ [b])"
    using first by simp
  have c3: "\<exists>bs2. savedBooks_of ctx ?s2 = Some bs2
              \<and> count_list bs2 b = max 1 (count_list bs b)"
    using second cnt by blast
  have c4: "count_list bs b \<le> 1 \<longrightarrow>
              (\<exists>bs2. savedBooks_of ctx ?s2 = Some bs2 \<and> count_list bs2 b = 1)"
    using second cnt by (simp add: max_def)
  have c5: "\<forall>e \<in> set bs. bookId e = bookId b \<and> title e \<noteq> title b \<longrightarrow>
              (\<exists>bs1. savedBooks_of ctx ?s1 = Some bs1 \<and> e \<in> set bs1 \<and> b \<in> set bs1
                     \<and> e \<noteq> b \<and> 2 \<le> length (filter (\<lambda>x. bookId x = bookId b) bs1))"
  proof (intro ballI impI)
    fix e
    assume e: "e \<in> set bs" and eb: "bookId e = bookId b \<and> title e \<noteq> title b"
    have ne: "e \<noteq> b" using eb by auto
    have mem: "e \<in> set ?bs1" "b \<in> set ?bs1" using e by auto
    have "e \<in> set (filter (\<lambda>x. bookId x = bookId b) ?bs1)"
      and "b \<in> set (filter (\<lambda>x. bookId x = bookId b) ?bs1)"
      using mem eb by simp_all
    then have "2 \<le> length (filter (\<lambda>x. bookId x = bookId b) ?bs1)"
      using ne by (rule two_members)
    with first ne mem
    show "\<exists>bs1. savedBooks_of ctx ?s1 = Some bs1 \<and> e \<in> set bs1 \<and> b \<in> set bs1
                \<and> e \<noteq> b \<and> 2 \<le> length (filter (\<lambda>x. bookId x = bookId b) bs1)"
      by blast
  qed
  have c6: "\<forall>e. bs = [e] \<and> bookId e = bookId b \<and> title e \<noteq> title b \<longrightarrow>
              savedBooks_of ctx ?s1 = Some [e, b]"
    using first by auto
  have c7: "distinct bs \<longrightarrow> (\<exists>bs1. savedBooks_of ctx ?s1 = Some bs1 \<and> distinct bs1)"
    using first by simp
  show ?thesis
    unfolding Let_def using c1 same c3 c4 c5 c6 c7 by blast
qed

theorem saveBook_full_field_dedup_witness:
  "truthy (ctx_user alice_context)
   \<and> bookValid sample_collaborators dune_retitled
   \<and> savedBooks_of alice_context sample_state = Some [dune]
   \<and> bookId dune = bookId dune_retitled
   \<and> title dune \<noteq> title dune_retitled
   \<and> savedBooks_of alice_context
        (snd (saveBook sample_collaborators dune_retitled alice_context sample_state))
       = Some [dune, dune_retitled]
   \<and> savedBooks_of alice_context
        (snd (saveBook sample_collaborators dune_retitled alice_context
               (snd (saveBook sample_collaborators dune_retitled alice_context sample_state))))
       = Some [dune, dune_retitled]
   \<and> count_list [dune, dune_retitled] dune_retitled = 1"
proof -
  have ids: "bookId dune = bookId dune_retitled" "title dune \<noteq> title dune_retitled"
    by (simp_all add: dune_def dune_retitled_def)
  from saveBook_full_field_dedup [OF truthy_alice books_valid(1) alice_books]
  have "savedBooks_of alice_context
          (snd (saveBook sample_collaborators dune_retitled alice_context sample_state))
         = Some [dune, dune_retitled]
      \<and> users (snd (saveBook sample_collaborators dune_retitled alice_context
                  (snd (saveBook sample_collaborators dune_retitled alice_context
                          sample_state))))
         = users (snd (saveBook sample_collaborators dune_retitled alice_context
                         sample_state))"
    by (simp add: Let_def books_differ)
  then show ?thesis
    using truthy_alice books_valid(1) alice_books ids books_differ(1)
    by (simp add: savedBooks_of_def)
qed

text \<open>
  The proviso of C1 is needed. \<open>createUser\<close> stores the \<open>savedBooks\<close> of its input as
  given, so a user created with the same book twice holds two copies; two authenticated
  \<open>saveBook\<close> calls with that book, which the store accepts, leave both copies: the
  array then holds the book twice, not once.
\<close>

theorem saveBook_twice_keeps_stored_duplicates:
  "truthy (ctx_user dave_context)
   \<and> bookValid sample_collaborators dune
   \<and> savedBooks_of dave_context
        (snd (createUser sample_collaborators dave_input sample_state))
       = Some [dune, dune]
   \<and> savedBooks_of dave_context
        (snd (saveBook sample_collaborators dune dave_context
          (snd (saveBook sample_collaborators dune dave_context
            (snd (createUser sample_collaborators dave_input sample_state))))))
       = Some [dune, dune]
   \<and> count_list [dune, dune] dune = 2"
proof -
  let ?s0 = "snd (createUser sample_collaborators dave_input sample_state)"
  let ?s1 = "snd (saveBook sample_collaborators dune dave_context ?s0)"
  have auth: "truthy (ctx_user dave_context)"
    by (simp add: dave_context_def)
  have valid: "bookValid sample_collaborators dune"
    by (simp add: sample_collaborators_def book_ids)
  then have ok: "runValidators \<lparr> new = True, runValidators = True \<rparr>
                   \<longrightarrow> update_valid sample_collaborators (AddToSet dune)"
    by simp
  have one: "savedBooks_of dave_context ?s1 = Some [dune, dune]"
    unfolding saveBook_authenticated [OF auth]
    using savedBooks_of_findOneAndUpdate [OF dave_books ok] by simp
  have two: "savedBooks_of dave_context
               (snd (saveBook sample_collaborators dune dave_context ?s1)) = Some [dune, dune]"
    unfolding saveBook_authenticated [OF auth]
    using savedBooks_of_findOneAndUpdate [OF one [unfolded saveBook_authenticated [OF auth]] ok]
    by simp
  from auth valid dave_books two show ?thesis by simp
qed

section \<open>Deleting a book\<close>

lemma length_filter_split:
  "length (filter (\<lambda>b. bookId b \<noteq> bid) bs) + length (filter (\<lambda>b. bookId b = bid) bs)
     = length bs"
  using sum_length_filter_compl [of "\<lambda>b. bookId b \<noteq> bid" bs] by simp

lemma filter_no_match:
  "(\<forall>b \<in> set bs. bookId b \<noteq> bid) \<Longrightarrow> filter (\<lambda>b. bookId b \<noteq> bid) bs = bs"
  by (simp add: filter_id_conv)

lemma apply_update_same_books:
  "update_array upd (savedBooks d) = savedBooks d \<Longrightarrow> apply_update upd d = d"
  by (simp add: apply_update_def)

text \<open>
  C5. For an authenticated context \<open>deleteBook\<close> never fails. When the user is stored,
  it returns the updated user, whose \<open>savedBooks\<close> are the former entries without
  every entry that has the given \<open>bookId\<close>, and whose \<open>bookCount\<close> is the former count
  less the number of such entries (less 2 for two matches); the store holds the same
  array afterwards. When no entry has the \<open>bookId\<close>, no document changes and the call
  still succeeds.
\<close>

theorem deleteBook_pulls_all_matching:
  assumes auth: "truthy (ctx_user ctx)"
  shows "(\<exists>r. fst (deleteBook K bid ctx s) = Inr r)
       \<and> (\<forall>bs. savedBooks_of ctx s = Some bs \<longrightarrow>
            (\<exists>u. fst (deleteBook K bid ctx s) = Inr (Some u)
                 \<and> savedBooks u = filter (\<lambda>b. bookId b \<noteq> bid) bs
                 \<and> bookCount u + length (filter (\<lambda>b. bookId b = bid) bs) = length bs)
            \<and> savedBooks_of ctx (snd (deleteBook K bid ctx s))
                = Some (filter (\<lambda>b. bookId b \<noteq> bid) bs)
            \<and> ((\<forall>b \<in> set bs. bookId b \<noteq> bid) \<longrightarrow>
                 users (snd (deleteBook K bid ctx s)) = users s))"
proof -
  let ?f = "By_id (get_id (ctx_user ctx))"
  let ?opts = "\<lparr> new = True, runValidators = False \<rparr>"
  have ok: "runValidators ?opts \<longrightarrow> update_valid K (Pull bid)"
    by simp
  have del: "deleteBook K bid ctx s = findOneAndUpdate K ?f (Pull bid) ?opts s"
    by (rule deleteBook_authenticated [OF auth])
  have never: "\<exists>r. fst (deleteBook K bid ctx s) = Inr r"
    unfolding del by (simp add: findOneAndUpdate_def Let_def split: option.splits)
  have rest: "(\<exists>u. fst (deleteBook K bid ctx s) = Inr (Some u)
                 \<and> savedBooks u = filter (\<lambda>b. bookId b \<noteq> bid) bs
                 \<and> bookCount u + length (filter (\<lambda>b. bookId b = bid) bs) = length bs)
            \<and> savedBooks_of ctx (snd (deleteBook K bid ctx s))
                = Some (filter (\<lambda>b. bookId b \<noteq> bid) bs)
            \<and> ((\<forall>b \<in> set bs. bookId b \<noteq> bid) \<longrightarrow>
                 users (snd (deleteBook K bid ctx s)) = users s)"
    if stored: "savedBooks_of ctx s = Some bs" for bs
  proof -
    from stored obtain d
      where d: "List.find (matches ?f) (users s) = Some d" and bs: "bs = savedBooks d"
      by (auto simp: savedBooks_of_def)
    let ?u = "to_User (apply_update (Pull bid) d)"
    have res: "fst (deleteBook K bid ctx s) = Inr (Some ?u)"
      unfolding del by (simp add: findOneAndUpdate_found [OF d ok])
    have books: "savedBooks ?u = filter (\<lambda>b. bookId b \<noteq> bid) bs"
      by (simp add: to_User_def apply_update_def bs)
    have count: "bookCount ?u + length (filter (\<lambda>b. bookId b = bid) bs) = length bs"
      using length_filter_split [of bid bs] by (simp add: to_User_def apply_update_def bs)
    have after: "savedBooks_of ctx (snd (deleteBook K bid ctx s))
                   = Some (filter (\<lambda>b. bookId b \<noteq> bid) bs)"
      unfolding del using savedBooks_of_findOneAndUpdate [OF stored ok] by simp
    have noop: "users (snd (deleteBook K bid ctx s)) = users s"
      if "\<forall>b \<in> set bs. bookId b \<noteq> bid"
    proof -
      have "apply_update (Pull bid) d = d"
        using filter_no_match [OF that] by (intro apply_update_same_books) (simp add: bs)
      with d have "update_first (matches ?f) (apply_update (Pull bid)) (users s) = users s"
        by (rule update_first_fixed)
      then show ?thesis
        unfolding del by (simp add: users_findOneAndUpdate)
    qed
    from res books count after noop show ?thesis by blast
  qed
  from never rest show ?thesis by blast
qed

theorem deleteBook_pulls_all_matching_witness:
  "truthy (ctx_user alice_context)
   \<and> savedBooks_of alice_context library_state = Some [dune, emma, dune_retitled]
   \<and> savedBooks_of alice_context
        (snd (deleteBook sample_collaborators ''b1'' alice_context library_state))
       = Some [emma]
   \<and> (\<exists>u. fst (deleteBook sample_collaborators ''b1'' alice_context library_state)
              = Inr (Some u)
          \<and> savedBooks u = [emma] \<and> bookCount u + 2 = 3)
   \<and> users (snd (deleteBook sample_collaborators ''b9'' alice_context library_state))
       = users library_state"
proof -
  from deleteBook_pulls_all_matching
         [OF truthy_alice, of sample_collaborators "''b1''" library_state]
  have b1: "(\<exists>u. fst (deleteBook sample_collaborators ''b1'' alice_context library_state)
                   = Inr (Some u)
               \<and> savedBooks u = [emma] \<and> bookCount u + 2 = 3)
          \<and> savedBooks_of alice_context
               (snd (deleteBook sample_collaborators ''b1'' alice_context library_state))
              = Some [emma]"
    by (simp add: library_books book_ids)
  from deleteBook_pulls_all_matching
         [OF truthy_alice, of sample_collaborators "''b9''" library_state]
  have b9: "users (snd (deleteBook sample_collaborators ''b9'' alice_context library_state))
              = users library_state"
    by (simp add: library_books book_ids)
  from b1 b9 truthy_alice library_books show ?thesis by simp
qed

section \<open>Creating a user\<close>

lemma fold_max_ge: "a \<le> fold max xs (a::nat)"
  by (induction xs arbitrary: a) (auto intro: le_trans [OF max.cobounded2])

lemma fold_max_member: "x \<in> set xs \<Longrightarrow> x \<le> fold max xs (a::nat)"
proof (induction xs arbitrary: a)
  case Nil
  then show ?case by simp
next
  case (Cons y ys)
  show ?case
  proof (cases "x = y")
    case True
    have "y \<le> max y a" by simp
    also have "\<dots> \<le> fold max ys (max y a)" by (rule fold_max_ge)
    finally show ?thesis using True by simp
  next
    case False
    with Cons show ?thesis by simp
  qed
qed

lemma fresh_id_is_fresh: "d \<in> set ds \<Longrightarrow> doc_id d \<noteq> fresh_id ds"
proof -
  assume "d \<in> set ds"
  then have "doc_id d \<in> set (map doc_id ds)" by simp
  then have "doc_id d \<le> fold max (map doc_id ds) 0" by (rule fold_max_member)
  then show ?thesis by (simp add: fresh_id_def)
qed

text \<open>
  C7. When the store accepts the input, \<open>createUser\<close> adds exactly one document: it has
  the given name, email and books, the password as hashed by the store, and an
  identifier that no stored document has. The token is the signer's result for the
  name, the email and the \<open>_id\<close> of that document, and the pair of the created user and
  the token is returned. The calls made are the creation and the signing.
\<close>

theorem createUser_creates_one_record:
  assumes valid: "createValid K (users s) inp"
  shows "let d = \<lparr> username = username inp, email = email inp,
                   password = hashPassword K (password inp),
                   savedBooks = savedBooks inp, doc_id = fresh_id (users s) \<rparr>;
             idv = ObjectId (fresh_id (users s))
         in createUser K inp s
              = (Inr \<lparr> token = signToken K (username inp) (email inp) idv,
                       auth_user = to_User d \<rparr>,
                 \<lparr> users = users s @ [d],
                   calls = calls s @ [Create inp, SignToken (username inp) (email inp) idv] \<rparr>)
          \<and> (\<forall>x \<in> set (users s). doc_id x \<noteq> doc_id d)
          \<and> length (users (snd (createUser K inp s))) = Suc (length (users s))"
proof -
  have run: "createUser K inp s
      = (Inr \<lparr> token = signToken K (username inp) (email inp) (ObjectId (fresh_id (users s))),
               auth_user = to_User \<lparr> username = username inp, email = email inp,
                   password = hashPassword K (password inp),
                   savedBooks = savedBooks inp, doc_id = fresh_id (users s) \<rparr> \<rparr>,
         \<lparr> users = users s @ [\<lparr> username = username inp, email = email inp,
                   password = hashPassword K (password inp),
                   savedBooks = savedBooks inp, doc_id = fresh_id (users s) \<rparr>],
           calls = calls s @ [Create inp,
                     SignToken (username inp) (email inp) (ObjectId (fresh_id (users s)))] \<rparr>)"
    using valid by (simp add: createUser_def create_def Let_def log_call_def to_User_def)
  have fresh: "\<forall>x \<in> set (users s). doc_id x \<noteq> fresh_id (users s)"
    by (simp add: fresh_id_is_fresh)
  show ?thesis
    unfolding Let_def using fresh by (simp add: run)
qed

theorem createUser_creates_one_record_witness:
  "createValid sample_collaborators (users sample_state) carol_input
   \<and> createUser sample_collaborators carol_input sample_state
       = (Inr \<lparr> token = ''carol|c@x.com|ooo'',
                auth_user = \<lparr> username = ''carol'', email = ''c@x.com'', password = ''#r'',
                              savedBooks = [], doc_id = 3, bookCount = 0 \<rparr> \<rparr>,
          \<lparr> users = [alice, bob,
                      \<lparr> username = ''carol'', email = ''c@x.com'', password = ''#r'',
                        savedBooks = [], doc_id = 3 \<rparr>],
            calls = [Create carol_input,
                     SignToken ''carol'' ''c@x.com'' (ObjectId 3)] \<rparr>)"
proof -
  have valid: "createValid sample_collaborators (users sample_state) carol_input"
    by (simp add: sample_collaborators_def carol_input_def)
  have three: "replicate 3 (CHR ''o'') = ''ooo''"
    by (simp add: numeral_3_eq_3)
  from createUser_creates_one_record [OF valid] valid
  show ?thesis
    by (simp add: Let_def fresh_id_sample to_User_def three)
       (simp add: sample_collaborators_def carol_input_def sample_state_def three)
qed

section \<open>The derived book count\<close>

lemma bookCount_to_User: "bookCount (to_User d) = length (savedBooks (to_User d))"
  by (simp add: to_User_def)

lemma read_at_member: "d \<in> set (users s) \<Longrightarrow> read_at (to_User d) s"
  unfolding read_at_def by (auto simp: to_User_def)

lemma findOne_read:
  assumes "fst (findOne f s) = Some u"
  shows "bookCount u = length (savedBooks u) \<and> read_at u (snd (findOne f s))"
proof -
  from assms obtain d where d: "List.find (matches f) (users s) = Some d" and u: "u = to_User d"
    by (auto simp: findOne_def)
  have "d \<in> set (users (snd (findOne f s)))"
    using find_Some_in_set [OF d] by (simp add: findOne_def users_log_call)
  then show ?thesis
    unfolding u by (simp add: bookCount_to_User read_at_member)
qed

lemma findOneAndUpdate_read:
  assumes new: "new opts" and res: "fst (findOneAndUpdate K f upd opts s) = Inr (Some u)"
  shows "bookCount u = length (savedBooks u)
       \<and> read_at u (snd (findOneAndUpdate K f upd opts s))"
proof -
  from res have ok: "runValidators opts \<longrightarrow> update_valid K upd"
    by (auto simp: findOneAndUpdate_def Let_def split: if_splits)
  from res ok obtain d where d: "List.find (matches f) (users s) = Some d"
    by (cases "List.find (matches f) (users s)") (auto simp: findOneAndUpdate_not_found)
  have u: "u = to_User (apply_update upd d)"
    using res new by (simp add: findOneAndUpdate_found [OF d ok])
  have "apply_update upd d \<in> set (users (snd (findOneAndUpdate K f upd opts s)))"
    using update_first_in_set [OF d] by (simp add: findOneAndUpdate_found [OF d ok])
  then show ?thesis
    unfolding u by (simp add: bookCount_to_User read_at_member)
qed

text \<open>
  C8. Every user that \<open>user\<close>, \<open>me\<close>, \<open>createUser\<close>, \<open>loginUser\<close>, \<open>saveBook\<close> or
  \<open>deleteBook\<close> returns has a \<open>bookCount\<close> equal to the length of its \<open>savedBooks\<close>, and
  it is the reading of a document held by the store in the state the call leaves
  behind, with \<open>bookCount\<close> the length of that document's \<open>savedBooks\<close>. A stored document
  has no \<open>bookCount\<close> field (record \<open>UserDocument\<close>).
\<close>

theorem returned_User_bookCount:
  "(\<forall>u. fst (user n s) = Inr (Some u) \<longrightarrow>
       bookCount u = length (savedBooks u) \<and> read_at u (snd (user n s)))
   \<and> (\<forall>u. fst (me ctx s) = Inr (Some u) \<longrightarrow>
       bookCount u = length (savedBooks u) \<and> read_at u (snd (me ctx s)))
   \<and> (\<forall>a. fst (createUser K inp s) = Inr a \<longrightarrow>
       bookCount (auth_user a) = length (savedBooks (auth_user a))
       \<and> read_at (auth_user a) (snd (createUser K inp s)))
   \<and> (\<forall>a. fst (loginUser K em pw s) = Inr a \<longrightarrow>
       bookCount (auth_user a) = length (savedBooks (auth_user a))
       \<and> read_at (auth_user a) (snd (loginUser K em pw s)))
   \<and> (\<forall>u. fst (saveBook K b ctx s) = Inr (Some u) \<longrightarrow>
       bookCount u = length (savedBooks u) \<and> read_at u (snd (saveBook K b ctx s)))
   \<and> (\<forall>u. fst (deleteBook K bid ctx s) = Inr (Some u) \<longrightarrow>
       bookCount u = length (savedBooks u) \<and> read_at u (snd (deleteBook K bid ctx s)))"
proof -
  have q_user: "bookCount u = length (savedBooks u) \<and> read_at u (snd (user n s))"
    if "fst (user n s) = Inr (Some u)" for u
  proof -
    have "fst (findOne (ByUsername n) s) = Some u"
      using that by (simp add: user_unfold)
    from findOne_read [OF this] show ?thesis
      by (simp add: user_unfold)
  qed
  have q_me: "bookCount u = length (savedBooks u) \<and> read_at u (snd (me ctx s))"
    if "fst (me ctx s) = Inr (Some u)" for u
  proof -
    have auth: "truthy (ctx_user ctx)"
      using that by (auto simp: me_def split: if_splits)
    have "fst (findOne (By_id (get_id (ctx_user ctx))) s) = Some u"
      using that by (simp add: me_authenticated [OF auth])
    from findOne_read [OF this] show ?thesis
      by (simp add: me_authenticated [OF auth])
  qed
  have m_create: "bookCount (auth_user a) = length (savedBooks (auth_user a))
                    \<and> read_at (auth_user a) (snd (createUser K inp s))"
    if "fst (createUser K inp s) = Inr a" for a
  proof -
    have valid: "createValid K (users s) inp"
      using that by (auto simp: createUser_def create_def Let_def split: if_splits)
    with that show ?thesis
      by (auto simp: createUser_def create_def Let_def users_log_call
                     bookCount_to_User read_at_member)
  qed
  have m_login: "bookCount (auth_user a) = length (savedBooks (auth_user a))
                   \<and> read_at (auth_user a) (snd (loginUser K em pw s))"
    if "fst (loginUser K em pw s) = Inr a" for a
  proof -
    from that obtain u where found: "fst (findOne (ByEmail em) s) = Some u"
      by (cases "fst (findOne (ByEmail em) s)")
         (auto simp: loginUser_def split: prod.splits)
    from that found have a: "auth_user a = u"
      by (auto simp: loginUser_def Let_def split: prod.splits if_splits)
    have "users (snd (loginUser K em pw s)) = users (snd (findOne (ByEmail em) s))"
      using found
      by (auto simp: loginUser_def Let_def users_log_call split: prod.splits if_splits)
    with findOne_read [OF found] show ?thesis
      unfolding a by (auto simp: read_at_def)
  qed
  have m_save: "bookCount u = length (savedBooks u) \<and> read_at u (snd (saveBook K b ctx s))"
    if "fst (saveBook K b ctx s) = Inr (Some u)" for u
  proof -
    have auth: "truthy (ctx_user ctx)"
      using that by (auto simp: saveBook_def split: if_splits)
    show ?thesis
      using that unfolding saveBook_authenticated [OF auth]
      by (intro findOneAndUpdate_read) simp_all
  qed
  have m_delete: "bookCount u = length (savedBooks u)
                    \<and> read_at u (snd (deleteBook K bid ctx s))"
    if "fst (deleteBook K bid ctx s) = Inr (Some u)" for u
  proof -
    have auth: "truthy (ctx_user ctx)"
      using that by (auto simp: deleteBook_def split: if_splits)
    show ?thesis
      using that unfolding deleteBook_authenticated [OF auth]
      by (intro findOneAndUpdate_read) simp_all
  qed
  from q_user q_me m_create m_login m_save m_delete show ?thesis by blast
qed

theorem returned_User_bookCount_witness:
  "fst (saveBook sample_collaborators emma alice_context sample_state)
     = Inr (Some (to_User (alice\<lparr> savedBooks := [dune, emma] \<rparr>)))
   \<and> bookCount (to_User (alice\<lparr> savedBooks := [dune, emma] \<rparr>)) = 2
   \<and> read_at (to_User (alice\<lparr> savedBooks := [dune, emma] \<rparr>))
        (snd (saveBook sample_collaborators emma alice_context sample_state))"
proof -
  have res: "fst (saveBook sample_collaborators emma alice_context sample_state)
               = Inr (Some (to_User (alice\<lparr> savedBooks := [dune, emma] \<rparr>)))"
    by (simp add: save_emma)
  from returned_User_bookCount
         [where K = sample_collaborators and b = emma and ctx = alice_context
            and s = sample_state]
  have "bookCount (to_User (alice\<lparr> savedBooks := [dune, emma] \<rparr>))
          = length (savedBooks (to_User (alice\<lparr> savedBooks := [dune, emma] \<rparr>)))
        \<and> read_at (to_User (alice\<lparr> savedBooks := [dune, emma] \<rparr>))
            (snd (saveBook sample_collaborators emma alice_context sample_state))"
    using res by blast
  with res show ?thesis by (simp add: to_User_def)
qed

section \<open>What an update leaves alone\<close>

lemma only_savedBooks_of_update_first:
  "only_savedBooks_of target ds
     (update_first (matches (By_id target)) (apply_update upd) ds)"
proof -
  have "list_all2
          (\<lambda>d d'. doc_id d' = doc_id d \<and> username d' = username d \<and> email d' = email d
                  \<and> password d' = password d
                  \<and> (Some (doc_id d) \<noteq> target \<longrightarrow> d' = d))
          ds (update_first (matches (By_id target)) (apply_update upd) ds)"
  proof (rule update_first_all2)
    fix d
    assume "matches (By_id target) d"
    then have "Some (doc_id d) = target"
      by (cases target) simp_all
    then show "doc_id (apply_update upd d) = doc_id d
             \<and> username (apply_update upd d) = username d
             \<and> email (apply_update upd d) = email d
             \<and> password (apply_update upd d) = password d
             \<and> (Some (doc_id d) \<noteq> target \<longrightarrow> apply_update upd d = d)"
      by (simp add: apply_update_def)
  next
    fix d :: UserDocument
    show "doc_id d = doc_id d \<and> username d = username d \<and> email d = email d
        \<and> password d = password d \<and> (Some (doc_id d) \<noteq> target \<longrightarrow> d = d)"
      by simp
  qed
  then show ?thesis
    unfolding only_savedBooks_of_def
    using update_first_changes_at_most_one by blast
qed

lemma only_savedBooks_of_refl: "only_savedBooks_of target ds ds"
  unfolding only_savedBooks_of_def
  by (simp add: list_all2_refl zip_same_conv_map filter_map o_def)

lemma only_savedBooks_of_findOneAndUpdate:
  "only_savedBooks_of target (users s)
     (users (snd (findOneAndUpdate K (By_id target) upd opts s)))"
  by (simp add: users_findOneAndUpdate only_savedBooks_of_refl
        only_savedBooks_of_update_first)

text \<open>
  C9. An authenticated \<open>saveBook\<close> or \<open>deleteBook\<close> keeps every document of the store in
  its place with its identifier, name, email and password; a document whose identifier
  is not \<open>context.user._id\<close> is unchanged, and at most one document changes at all. So
  only the \<open>savedBooks\<close> of the targeted user (and the count derived from it) can differ.
\<close>

theorem saveBook_deleteBook_frame:
  assumes auth: "truthy (ctx_user ctx)"
  shows "only_savedBooks_of (get_id (ctx_user ctx)) (users s)
           (users (snd (saveBook K b ctx s)))
       \<and> only_savedBooks_of (get_id (ctx_user ctx)) (users s)
           (users (snd (deleteBook K bid ctx s)))"
  unfolding saveBook_authenticated [OF auth] deleteBook_authenticated [OF auth]
  by (simp add: only_savedBooks_of_findOneAndUpdate)

theorem saveBook_deleteBook_frame_witness:
  "truthy (ctx_user alice_context)
   \<and> only_savedBooks_of (Some 1) [alice, bob] [alice\<lparr> savedBooks := [dune, emma] \<rparr>, bob]
   \<and> only_savedBooks_of (Some 1) [alice_library, bob]
        [alice_library\<lparr> savedBooks := [emma] \<rparr>, bob]"
proof -
  from saveBook_deleteBook_frame
         [OF truthy_alice, of sample_state sample_collaborators emma "''b1''"]
  have one: "only_savedBooks_of (Some 1) [alice, bob]
               [alice\<lparr> savedBooks := [dune, emma] \<rparr>, bob]"
    by (simp add: get_id_alice save_emma) (simp add: sample_state_def)
  from saveBook_deleteBook_frame
         [OF truthy_alice, of library_state sample_collaborators emma "''b1''"]
  have two: "only_savedBooks_of (Some 1) [alice_library, bob]
               [alice_library\<lparr> savedBooks := [emma] \<rparr>, bob]"
    by (simp add: get_id_alice delete_b1) (simp add: library_state_def)
  from one two truthy_alice show ?thesis by simp
qed

section \<open>What the authorization check looks at\<close>

lemma no_match_without_id: "List.find (matches (By_id None)) ds = None"
  by (induction ds) simp_all

text \<open>
  C10. \<open>me\<close>, \<open>saveBook\<close> and \<open>deleteBook\<close> look at nothing of the context but the
  truthiness of \<open>context.user\<close> and its \<open>_id\<close>. Two contexts whose \<open>context.user\<close> is
  truthy with the same \<open>_id\<close>, or falsy in both, give the same result and the same
  state, and with a truthy \<open>context.user\<close> none of them ends in an
  \<open>AuthenticationError\<close>. When \<open>context.user\<close> is an object whose \<open>_id\<close> is \<open>k\<close>, whatever
  its \<open>id\<close>, the store is called with the filter \<open>_id = k\<close>: \<open>me\<close> returns the first
  document whose identifier is \<open>k\<close>, the two mutations update that document and no
  other, and a user that is returned has the identifier \<open>k\<close>. When \<open>context.user\<close> is
  an object with an \<open>id\<close> and no \<open>_id\<close>, or a truthy primitive, it passes the check; the
  store is then called with a filter whose \<open>_id\<close> is missing, no document matches,
  the result is \<open>null\<close> and no document changes (for \<open>saveBook\<close>, provided the book
  passes the store's validation).
\<close>

theorem authorization_by_truthiness_and_id:
  "(truthy (ctx_user c1) \<and> truthy (ctx_user c2)
      \<and> get_id (ctx_user c1) = get_id (ctx_user c2) \<longrightarrow>
        me c1 s = me c2 s
      \<and> saveBook K b c1 s = saveBook K b c2 s
      \<and> deleteBook K bid c1 s = deleteBook K bid c2 s)
   \<and> (\<not> truthy (ctx_user c1) \<and> \<not> truthy (ctx_user c2) \<longrightarrow>
        me c1 s = me c2 s
      \<and> saveBook K b c1 s = saveBook K b c2 s
      \<and> deleteBook K bid c1 s = deleteBook K bid c2 s)
   \<and> (truthy (ctx_user c1) \<longrightarrow>
        \<not> instanceof_AuthenticationError_result (fst (me c1 s))
      \<and> \<not> instanceof_AuthenticationError_result (fst (saveBook K b c1 s))
      \<and> \<not> instanceof_AuthenticationError_result (fst (deleteBook K bid c1 s)))
   \<and> truthy (ctx_user \<lparr> ctx_user = JObject None (Some i) \<rparr>)
   \<and> me \<lparr> ctx_user = JObject None (Some i) \<rparr> s
       = (Inr None, s\<lparr> calls := calls s @ [FindOne (By_id None)] \<rparr>)
   \<and> (bookValid K b \<longrightarrow>
        saveBook K b \<lparr> ctx_user = JObject None (Some i) \<rparr> s
          = (Inr None,
             s\<lparr> calls := calls s @ [FindOneAndUpdate (By_id None) (AddToSet b)
                                      \<lparr> new = True, runValidators = True \<rparr>] \<rparr>))
   \<and> deleteBook K bid \<lparr> ctx_user = JObject None (Some i) \<rparr> s
       = (Inr None,
          s\<lparr> calls := calls s @ [FindOneAndUpdate (By_id None) (Pull bid)
                                   \<lparr> new = True, runValidators = False \<rparr>] \<rparr>)
   \<and> me \<lparr> ctx_user = JObject (Some k) j \<rparr> s
       = (Inr (map_option to_User (List.find (\<lambda>d. doc_id d = k) (users s))),
          s\<lparr> calls := calls s @ [FindOne (By_id (Some k))] \<rparr>)
   \<and> saveBook K b \<lparr> ctx_user = JObject (Some k) j \<rparr> s
       = findOneAndUpdate K (By_id (Some k)) (AddToSet b)
           \<lparr> new = True, runValidators = True \<rparr> s
   \<and> deleteBook K bid \<lparr> ctx_user = JObject (Some k) j \<rparr> s
       = findOneAndUpdate K (By_id (Some k)) (Pull bid)
           \<lparr> new = True, runValidators = False \<rparr> s
   \<and> calls (snd (saveBook K b \<lparr> ctx_user = JObject (Some k) j \<rparr> s))
       = calls s @ [FindOneAndUpdate (By_id (Some k)) (AddToSet b)
                      \<lparr> new = True, runValidators = True \<rparr>]
   \<and> calls (snd (deleteBook K bid \<lparr> ctx_user = JObject (Some k) j \<rparr> s))
       = calls s @ [FindOneAndUpdate (By_id (Some k)) (Pull bid)
                      \<lparr> new = True, runValidators = False \<rparr>]
   \<and> (bookValid K b \<longrightarrow>
        users (snd (saveBook K b \<lparr> ctx_user = JObject (Some k) j \<rparr> s))
          = update_first (\<lambda>d. doc_id d = k) (apply_update (AddToSet b)) (users s))
   \<and> users (snd (deleteBook K bid \<lparr> ctx_user = JObject (Some k) j \<rparr> s))
       = update_first (\<lambda>d. doc_id d = k) (apply_update (Pull bid)) (users s)
   \<and> (\<forall>u. fst (me \<lparr> ctx_user = JObject (Some k) j \<rparr> s) = Inr (Some u)
          \<or> fst (saveBook K b \<lparr> ctx_user = JObject (Some k) j \<rparr> s) = Inr (Some u)
          \<or> fst (deleteBook K bid \<lparr> ctx_user = JObject (Some k) j \<rparr> s) = Inr (Some u)
          \<longrightarrow> doc_id u = k)
   \<and> me \<lparr> ctx_user = JBoolean True \<rparr> s
       = (Inr None, s\<lparr> calls := calls s @ [FindOne (By_id None)] \<rparr>)"
proof -
  let ?obj = "\<lparr> ctx_user = JObject (Some k) j \<rparr>"
  have same: "me c1 s = me c2 s \<and> saveBook K b c1 s = saveBook K b c2 s
                \<and> deleteBook K bid c1 s = deleteBook K bid c2 s"
    if "truthy (ctx_user c1)" and "truthy (ctx_user c2)"
      and "get_id (ctx_user c1) = get_id (ctx_user c2)"
    using that by (simp add: me_def saveBook_def deleteBook_def)
  have both_falsy: "me c1 s = me c2 s \<and> saveBook K b c1 s = saveBook K b c2 s
                      \<and> deleteBook K bid c1 s = deleteBook K bid c2 s"
    if "\<not> truthy (ctx_user c1)" and "\<not> truthy (ctx_user c2)"
    using that by (simp add: me_def saveBook_def deleteBook_def)
  have never: "\<not> instanceof_AuthenticationError_result (fst (me c1 s))
             \<and> \<not> instanceof_AuthenticationError_result (fst (saveBook K b c1 s))
             \<and> \<not> instanceof_AuthenticationError_result (fst (deleteBook K bid c1 s))"
    if auth: "truthy (ctx_user c1)"
    unfolding saveBook_authenticated [OF auth] deleteBook_authenticated [OF auth]
      me_authenticated [OF auth]
    by (simp add: findOneAndUpdate_def Let_def split: option.splits)
  have q_me: "me \<lparr> ctx_user = JObject None (Some i) \<rparr> s
                = (Inr None, s\<lparr> calls := calls s @ [FindOne (By_id None)] \<rparr>)"
    by (simp add: me_def findOne_def no_match_without_id log_call_def)
  have m_save: "saveBook K b \<lparr> ctx_user = JObject None (Some i) \<rparr> s
          = (Inr None,
             s\<lparr> calls := calls s @ [FindOneAndUpdate (By_id None) (AddToSet b)
                                      \<lparr> new = True, runValidators = True \<rparr>] \<rparr>)"
    if "bookValid K b"
    using that by (simp add: saveBook_def findOneAndUpdate_not_found no_match_without_id)
  have m_delete: "deleteBook K bid \<lparr> ctx_user = JObject None (Some i) \<rparr> s
       = (Inr None,
          s\<lparr> calls := calls s @ [FindOneAndUpdate (By_id None) (Pull bid)
                                   \<lparr> new = True, runValidators = False \<rparr>] \<rparr>)"
    by (simp add: deleteBook_def findOneAndUpdate_not_found no_match_without_id)
  have k_me: "me ?obj s
       = (Inr (map_option to_User (List.find (\<lambda>d. doc_id d = k) (users s))),
          s\<lparr> calls := calls s @ [FindOne (By_id (Some k))] \<rparr>)"
    by (simp add: me_def findOne_def matches_By_id log_call_def)
  have k_save: "saveBook K b ?obj s
       = findOneAndUpdate K (By_id (Some k)) (AddToSet b)
           \<lparr> new = True, runValidators = True \<rparr> s"
    by (simp add: saveBook_def)
  have k_delete: "deleteBook K bid ?obj s
       = findOneAndUpdate K (By_id (Some k)) (Pull bid)
           \<lparr> new = True, runValidators = False \<rparr> s"
    by (simp add: deleteBook_def)
  have k_save_calls: "calls (snd (saveBook K b ?obj s))
       = calls s @ [FindOneAndUpdate (By_id (Some k)) (AddToSet b)
                      \<lparr> new = True, runValidators = True \<rparr>]"
    unfolding k_save
    by (simp add: findOneAndUpdate_def Let_def log_call_def split: option.splits)
  have k_delete_calls: "calls (snd (deleteBook K bid ?obj s))
       = calls s @ [FindOneAndUpdate (By_id (Some k)) (Pull bid)
                      \<lparr> new = True, runValidators = False \<rparr>]"
    unfolding k_delete
    by (simp add: findOneAndUpdate_def Let_def log_call_def split: option.splits)
  have k_save_users: "users (snd (saveBook K b ?obj s))
          = update_first (\<lambda>d. doc_id d = k) (apply_update (AddToSet b)) (users s)"
    if "bookValid K b"
    unfolding k_save using that by (simp add: users_findOneAndUpdate matches_By_id)
  have k_delete_users: "users (snd (deleteBook K bid ?obj s))
       = update_first (\<lambda>d. doc_id d = k) (apply_update (Pull bid)) (users s)"
    unfolding k_delete by (simp add: users_findOneAndUpdate matches_By_id)
  have found_id: "doc_id d = k" if "List.find (\<lambda>d. doc_id d = k) (users s) = Some d" for d
    using that by (auto simp: find_Some_iff)
  have upd_id: "doc_id u = k"
    if "fst (findOneAndUpdate K (By_id (Some k)) upd opts s) = Inr (Some u)" for upd opts u
  proof -
    from that obtain d where d: "List.find (matches (By_id (Some k))) (users s) = Some d"
      and u: "u = to_User (if new opts then apply_update upd d else d)"
      by (auto simp: findOneAndUpdate_def Let_def split: if_splits option.splits)
    from d have "doc_id d = k"
      by (auto simp: find_Some_iff)
    then show ?thesis
      by (simp add: u to_User_def apply_update_def)
  qed
  have k_ids: "\<forall>u. fst (me ?obj s) = Inr (Some u)
          \<or> fst (saveBook K b ?obj s) = Inr (Some u)
          \<or> fst (deleteBook K bid ?obj s) = Inr (Some u)
          \<longrightarrow> doc_id u = k"
  proof (intro allI impI)
    fix u
    assume "fst (me ?obj s) = Inr (Some u)
          \<or> fst (saveBook K b ?obj s) = Inr (Some u)
          \<or> fst (deleteBook K bid ?obj s) = Inr (Some u)"
    then consider "fst (me ?obj s) = Inr (Some u)"
      | "fst (saveBook K b ?obj s) = Inr (Some u)"
      | "fst (deleteBook K bid ?obj s) = Inr (Some u)"
      by blast
    then show "doc_id u = k"
    proof cases
      case 1
      then obtain d where "List.find (\<lambda>d. doc_id d = k) (users s) = Some d" "u = to_User d"
        unfolding k_me by auto
      then show ?thesis
        using found_id by (simp add: to_User_def)
    next
      case 2
      then show ?thesis unfolding k_save by (rule upd_id)
    next
      case 3
      then show ?thesis unfolding k_delete by (rule upd_id)
    qed
  qed
  have prim: "me \<lparr> ctx_user = JBoolean True \<rparr> s
       = (Inr None, s\<lparr> calls := calls s @ [FindOne (By_id None)] \<rparr>)"
    by (simp add: me_def findOne_def no_match_without_id log_call_def)
  have is_truthy: "truthy (ctx_user \<lparr> ctx_user = JObject None (Some i) \<rparr>)"
    by simp
  have c_same: "truthy (ctx_user c1) \<and> truthy (ctx_user c2)
      \<and> get_id (ctx_user c1) = get_id (ctx_user c2) \<longrightarrow>
        me c1 s = me c2 s
      \<and> saveBook K b c1 s = saveBook K b c2 s
      \<and> deleteBook K bid c1 s = deleteBook K bid c2 s"
    using same by blast
  have c_falsy: "\<not> truthy (ctx_user c1) \<and> \<not> truthy (ctx_user c2) \<longrightarrow>
        me c1 s = me c2 s
      \<and> saveBook K b c1 s = saveBook K b c2 s
      \<and> deleteBook K bid c1 s = deleteBook K bid c2 s"
    using both_falsy by blast
  have c_never: "truthy (ctx_user c1) \<longrightarrow>
        \<not> instanceof_AuthenticationError_result (fst (me c1 s))
      \<and> \<not> instanceof_AuthenticationError_result (fst (saveBook K b c1 s))
      \<and> \<not> instanceof_AuthenticationError_result (fst (deleteBook K bid c1 s))"
    using never by blast
  have c_save: "bookValid K b \<longrightarrow>
        saveBook K b \<lparr> ctx_user = JObject None (Some i) \<rparr> s
          = (Inr None,
             s\<lparr> calls := calls s @ [FindOneAndUpdate (By_id None) (AddToSet b)
                                      \<lparr> new = True, runValidators = True \<rparr>] \<rparr>)"
    using m_save by blast
  have c_save_users: "bookValid K b \<longrightarrow>
        users (snd (saveBook K b ?obj s))
          = update_first (\<lambda>d. doc_id d = k) (apply_update (AddToSet b)) (users s)"
    using k_save_users by blast
  show ?thesis
    by (intro conjI c_same c_falsy c_never is_truthy q_me c_save m_delete k_me k_save
          k_delete k_save_calls k_delete_calls c_save_users k_delete_users k_ids prim)
qed

theorem authorization_by_truthiness_and_id_witness:
  "truthy (ctx_user \<lparr> ctx_user = JObject None (Some 1) \<rparr>)
   \<and> me \<lparr> ctx_user = JObject None (Some 1) \<rparr> sample_state
       = (Inr None, sample_state\<lparr> calls := calls sample_state @ [FindOne (By_id None)] \<rparr>)
   \<and> bookValid sample_collaborators emma
   \<and> saveBook sample_collaborators emma \<lparr> ctx_user = JObject None (Some 1) \<rparr> sample_state
       = (Inr None,
          sample_state\<lparr> calls := calls sample_state
                                  @ [FindOneAndUpdate (By_id None) (AddToSet emma)
                                       \<lparr> new = True, runValidators = True \<rparr>] \<rparr>)
   \<and> truthy (ctx_user alice_context)
   \<and> truthy (ctx_user \<lparr> ctx_user = JObject (Some 1) None \<rparr>)
   \<and> me alice_context sample_state = me \<lparr> ctx_user = JObject (Some 1) None \<rparr> sample_state
   \<and> \<not> instanceof_AuthenticationError_result (fst (me alice_context sample_state))
   \<and> me \<lparr> ctx_user = JObject (Some 2) (Some 1) \<rparr> sample_state
       = (Inr (map_option to_User (List.find (\<lambda>d. doc_id d = 2) (users sample_state))),
          sample_state\<lparr> calls := calls sample_state @ [FindOne (By_id (Some 2))] \<rparr>)
   \<and> List.find (\<lambda>d. doc_id d = 2) (users sample_state) = Some bob
   \<and> users (snd (deleteBook sample_collaborators ''b2''
                   \<lparr> ctx_user = JObject (Some 2) (Some 1) \<rparr> sample_state))
       = update_first (\<lambda>d. doc_id d = 2) (apply_update (Pull ''b2'')) (users sample_state)
   \<and> update_first (\<lambda>d. doc_id d = 2) (apply_update (Pull ''b2'')) (users sample_state)
       = [alice, bob\<lparr> savedBooks := [] \<rparr>]"
proof -
  have other: "truthy (ctx_user \<lparr> ctx_user = JObject (Some 1) None \<rparr>)"
    by simp
  have same: "get_id (ctx_user alice_context)
                = get_id (ctx_user \<lparr> ctx_user = JObject (Some 1) None \<rparr>)"
    by (simp add: get_id_alice)
  from authorization_by_truthiness_and_id
         [where ?c1.0 = alice_context and ?c2.0 = "\<lparr> ctx_user = JObject (Some 1) None \<rparr>"
            and s = sample_state and K = sample_collaborators and b = emma and i = 1
            and bid = "''b2''" and k = 2 and j = "Some 1"]
  show ?thesis
    using truthy_alice other same books_valid(2) find_bob pull_b2 by blast
qed

end
